theory Spec2Isabelle
  imports Main
begin

section \<open>Values, Results and error holders\<close>

text \<open>
  The library is dynamically typed at run time: a callback may return a plain value or
  a Result (\<^verbatim>\<open>toResult\<close> asks \<^verbatim>\<open>isResult\<close>), anything can be thrown, and
  \<^verbatim>\<open>Result.run\<close> works on \<^verbatim>\<open>any\<close>. The model therefore has one universe of
  run-time values. \<^verbatim>\<open>class _Result { constructor(public readonly data: ResultData) }\<close>
  with \<^verbatim>\<open>ResultData = { isOk: true; value: T } | { isOk: false; value: ... }\<close> is the
  type \<open>result\<close>; the classes \<^verbatim>\<open>CheckedErrorHolder\<close> and \<^verbatim>\<open>UncheckedErrorHolder\<close>
  of ErrorHolder.ts (each with one field \<^verbatim>\<open>error\<close>) are two constructors of values.
  Equality of the model is the structural equality of the tests (\<^verbatim>\<open>deepStrictEqual\<close>);
  object identity is not modelled.
\<close>

datatype val =
    Undefined
  | Num int
  | Str string
  | Arr "val list"
  | Error string
  | AggregateError "val list"
  | CheckedErrorHolder val
  | UncheckedErrorHolder val
  | Obj "(string \<times> val) list"
  | Res result
and result =
    Result (data_isOk: bool) (data_value: val)

definition isErrorHolder :: "val \<Rightarrow> bool" where
  "isErrorHolder it =
     (case it of CheckedErrorHolder _ \<Rightarrow> True | UncheckedErrorHolder _ \<Rightarrow> True | _ \<Rightarrow> False)"

definition isCheckedErrorHolder :: "val \<Rightarrow> bool" where
  "isCheckedErrorHolder it = (case it of CheckedErrorHolder _ \<Rightarrow> True | _ \<Rightarrow> False)"

definition isUncheckedErrorHolder :: "val \<Rightarrow> bool" where
  "isUncheckedErrorHolder it = (case it of UncheckedErrorHolder _ \<Rightarrow> True | _ \<Rightarrow> False)"

definition makeUncheckedErrorHolder :: "val \<Rightarrow> val" where
  "makeUncheckedErrorHolder error = UncheckedErrorHolder error"

definition makeCheckedErrorHolder :: "val \<Rightarrow> val" where
  "makeCheckedErrorHolder error = CheckedErrorHolder error"

definition isResult :: "val \<Rightarrow> bool" where
  "isResult it = (case it of Res _ \<Rightarrow> True | _ \<Rightarrow> False)"

text \<open>
  The repository holds two variants of Result.ts. In the variant with error holders
  (the second Result module) \<^verbatim>\<open>Err\<close> wraps its argument in a checked holder and
  \<^verbatim>\<open>ErrUnchecked\<close> in an unchecked one; in the simple variant (the first Result module)
  \<^verbatim>\<open>Err\<close> stores the error itself. \<^verbatim>\<open>Ok\<close> is the same in both. The names of the
  simple variant carry the suffix \<open>_simple\<close>.
\<close>

definition Ok :: "val \<Rightarrow> result" where
  "Ok arg = Result True arg"

definition Err :: "val \<Rightarrow> result" where
  "Err error = Result False (makeCheckedErrorHolder error)"

definition ErrUnchecked :: "val \<Rightarrow> result" where
  "ErrUnchecked error = Result False (makeUncheckedErrorHolder error)"

definition Err_simple :: "val \<Rightarrow> result" where
  "Err_simple error = Result False error"

text \<open>\<^verbatim>\<open>toResult(it) = isResult(it) ? it : Ok(it)\<close>; the simple variant copies the data
  (\<^verbatim>\<open>new _Result({ ...it.data })\<close>), which is the same value structurally.\<close>

definition toResult :: "val \<Rightarrow> result" where
  "toResult it = (case it of Res r \<Rightarrow> r | _ \<Rightarrow> Ok it)"

definition toResult_simple :: "val \<Rightarrow> result" where
  "toResult_simple it =
     (case it of Res r \<Rightarrow> Result (data_isOk r) (data_value r) | _ \<Rightarrow> Ok it)"

section \<open>Calls that may throw and may change the world\<close>

text \<open>
  A JavaScript call returns a value or throws one, and it may have side effects. A
  computation takes the state of the world \<open>'w\<close> (everything a callback can observe or
  change: mock counters, flags, the state of a generator) and gives back its outcome
  with the new world. That a callback is not invoked shows as: the world and the
  result do not depend on it.
\<close>

datatype 'a outcome = Returns 'a | Throws val

type_synonym ('a, 'w) eff = "'w \<Rightarrow> 'a outcome \<times> 'w"

type_synonym 'w callback = "val \<Rightarrow> (val, 'w) eff"

text \<open>\<^verbatim>\<open>try { body } catch (error) { return handler(error) }\<close> around a body that
  returns.\<close>

definition try_catch :: "('a, 'w) eff \<Rightarrow> (val \<Rightarrow> ('a, 'w) eff) \<Rightarrow> ('a, 'w) eff" where
  "try_catch body handler w =
     (case body w of
        (Returns x, w') \<Rightarrow> (Returns x, w')
      | (Throws error, w') \<Rightarrow> handler error w')"

text \<open>\<^verbatim>\<open>toResult(cb(arg))\<close>: the call is made, and what it returns is converted; a throw
  of the callback passes through.\<close>

definition call_toResult :: "'w callback \<Rightarrow> val \<Rightarrow> (result, 'w) eff" where
  "call_toResult cb arg w =
     (case cb arg w of
        (Returns it, w') \<Rightarrow> (Returns (toResult it), w')
      | (Throws error, w') \<Rightarrow> (Throws error, w'))"

definition call_toResult_simple :: "'w callback \<Rightarrow> val \<Rightarrow> (result, 'w) eff" where
  "call_toResult_simple cb arg w =
     (case cb arg w of
        (Returns it, w') \<Rightarrow> (Returns (toResult_simple it), w')
      | (Throws error, w') \<Rightarrow> (Throws error, w'))"

section \<open>The methods of Result (variant with error holders)\<close>

text \<open>
  A constant's name cannot end in an underscore, so \<^verbatim>\<open>then_\<close>, \<^verbatim>\<open>catch_\<close> and
  \<^verbatim>\<open>finally_\<close> are \<open>then_res\<close>, \<open>catch_res\<close> and \<open>finally_res\<close>.

  \<^verbatim>\<open>then_(okCb, errCb?)\<close>: the whole conditional is inside \<^verbatim>\<open>try\<close>, and the handler
  returns \<^verbatim>\<open>ErrUnchecked(error)\<close>. An absent \<^verbatim>\<open>errCb\<close> is \<open>None\<close>.
\<close>

definition then_res :: "result \<Rightarrow> 'w callback \<Rightarrow> 'w callback option \<Rightarrow> (result, 'w) eff" where
  "then_res this okCb errCb =
     try_catch
       (if data_isOk this then call_toResult okCb (data_value this)
        else (case errCb of
                Some errCb' \<Rightarrow> call_toResult errCb' (data_value this)
              | None \<Rightarrow> (\<lambda>w. (Returns this, w))))
       (\<lambda>error w. (Returns (ErrUnchecked error), w))"

definition catch_res :: "result \<Rightarrow> 'w callback \<Rightarrow> (result, 'w) eff" where
  "catch_res this cb =
     try_catch
       (if data_isOk this then (\<lambda>w. (Returns this, w))
        else call_toResult cb (data_value this))
       (\<lambda>error w. (Returns (ErrUnchecked error), w))"

text \<open>
  \<^verbatim>\<open>finally_(cb)\<close> builds \<^verbatim>\<open>fn = () => { const newResult = cb(); return
  isResult(newResult) && !newResult.data.isOk ? newResult : this; }\<close> and returns
  \<^verbatim>\<open>this.then_(fn, fn)\<close>. The callback takes no argument.
\<close>

definition finally_fn :: "result \<Rightarrow> (val, 'w) eff \<Rightarrow> 'w callback" where
  "finally_fn this cb = (\<lambda>_ w.
     (case cb w of
        (Throws error, w') \<Rightarrow> (Throws error, w')
      | (Returns newResult, w') \<Rightarrow>
          (case newResult of
             Res r \<Rightarrow> if \<not> data_isOk r then (Returns newResult, w') else (Returns (Res this), w')
           | _ \<Rightarrow> (Returns (Res this), w'))))"

definition finally_res :: "result \<Rightarrow> (val, 'w) eff \<Rightarrow> (result, 'w) eff" where
  "finally_res this cb = then_res this (finally_fn this cb) (Some (finally_fn this cb))"

section \<open>The methods of Result (simple variant)\<close>

text \<open>The simple variant has no \<^verbatim>\<open>try\<close>: what a callback throws leaves the method.\<close>

definition then_res_simple ::
  "result \<Rightarrow> 'w callback \<Rightarrow> 'w callback option \<Rightarrow> (result, 'w) eff" where
  "then_res_simple this okCb errCb =
     (if data_isOk this then call_toResult_simple okCb (data_value this)
      else (case errCb of
              Some errCb' \<Rightarrow> call_toResult_simple errCb' (data_value this)
            | None \<Rightarrow> (\<lambda>w. (Returns (toResult_simple (Res this)), w))))"

definition catch_res_simple :: "result \<Rightarrow> 'w callback \<Rightarrow> (result, 'w) eff" where
  "catch_res_simple this cb =
     (if data_isOk this then (\<lambda>w. (Returns (toResult_simple (Res this)), w))
      else call_toResult_simple cb (data_value this))"

definition valueOrFallback_simple :: "result \<Rightarrow> 'w callback \<Rightarrow> (val, 'w) eff" where
  "valueOrFallback_simple this getFallback =
     (if data_isOk this then (\<lambda>w. (Returns (data_value this), w))
      else getFallback (data_value this))"

section \<open>Result.all and Result.any\<close>

text \<open>
  Both are a \<^verbatim>\<open>for ... of\<close> loop over the input with an accumulator that is pushed to,
  and a \<^verbatim>\<open>return\<close> from inside the loop.
\<close>

fun all_loop :: "result list \<Rightarrow> val list \<Rightarrow> result" where
  "all_loop [] okValues = Ok (Arr okValues)"
| "all_loop (result # results) okValues =
     (if data_isOk result then all_loop results (okValues @ [data_value result])
      else result)"

definition Result_all :: "result list \<Rightarrow> result" where
  "Result_all results = all_loop results []"

fun any_loop :: "result list \<Rightarrow> val list \<Rightarrow> result" where
  "any_loop [] errValues = Err (AggregateError errValues)"
| "any_loop (result # results) errValues =
     (if data_isOk result then result
      else any_loop results (errValues @ [data_value result]))"

definition Result_any :: "result list \<Rightarrow> result" where
  "Result_any results = any_loop results []"

section \<open>Result.compose\<close>

text \<open>
  \<^verbatim>\<open>function c(...fns: NonEmptyArray<(v: any) => Result<any, any>>)\<close> returns
  \<^verbatim>\<open>(v) => { const [fn, ...restFns] = fns; let result = fn(v);
  for (const fn of restFns) { result = result.then_(fn); } return result; }\<close>.
  The functions return Results; the non-empty array is given as its head \<open>fn\<close> and its
  tail \<open>restFns\<close>, as the destructuring names them. A throw of \<open>fn(v)\<close> leaves \<open>c\<close>;
  a throw inside \<^verbatim>\<open>then_\<close> is caught there.
\<close>

type_synonym 'w result_fun = "val \<Rightarrow> (result, 'w) eff"

definition as_callback :: "'w result_fun \<Rightarrow> 'w callback" where
  "as_callback fn = (\<lambda>v w.
     (case fn v w of
        (Returns r, w') \<Rightarrow> (Returns (Res r), w')
      | (Throws error, w') \<Rightarrow> (Throws error, w')))"

fun c_loop :: "'w result_fun list \<Rightarrow> result \<Rightarrow> (result, 'w) eff" where
  "c_loop [] result w = (Returns result, w)"
| "c_loop (fn # restFns) result w =
     (case then_res result (as_callback fn) None w of
        (Returns result', w') \<Rightarrow> c_loop restFns result' w'
      | (Throws error, w') \<Rightarrow> (Throws error, w'))"

definition c :: "'w result_fun \<Rightarrow> 'w result_fun list \<Rightarrow> val \<Rightarrow> (result, 'w) eff" where
  "c fn restFns v w =
     (case fn v w of
        (Returns result, w') \<Rightarrow> c_loop restFns result w'
      | (Throws error, w') \<Rightarrow> (Throws error, w'))"

text \<open>
  The specification's reading of compose, written from its words: the input is threaded
  through \<^verbatim>\<open>f1(x).then_(f2).then_(...).then_(fn)\<close>. The outermost call is the one of the
  last function, so the chain is defined on the later functions in reverse order.
\<close>

fun spec_then_chain :: "'w result_fun \<Rightarrow> 'w result_fun list \<Rightarrow> val \<Rightarrow> (result, 'w) eff" where
  "spec_then_chain f1 [] x w = f1 x w"
| "spec_then_chain f1 (fn # earlier) x w =
     (case spec_then_chain f1 earlier x w of
        (Returns r, w') \<Rightarrow> then_res r (as_callback fn) None w'
      | (Throws error, w') \<Rightarrow> (Throws error, w'))"

definition spec_compose :: "'w result_fun \<Rightarrow> 'w result_fun list \<Rightarrow> val \<Rightarrow> (result, 'w) eff" where
  "spec_compose f1 later x = spec_then_chain f1 (rev later) x"

section \<open>Result.run\<close>

text \<open>
  \<^verbatim>\<open>Result.run(fn)\<close> calls \<^verbatim>\<open>fn()\<close> for a generator object and uses two of its
  methods, \<^verbatim>\<open>gen.next(v)\<close> and \<^verbatim>\<open>gen.return?.(value)\<close>. A generator object is
  given by these two methods; its internal state is part of the world they act on.
  An iterator result is \<^verbatim>\<open>{ value, done }\<close>, where \<^verbatim>\<open>done\<close> may be absent
  (\<^verbatim>\<open>done: done_ = false\<close> in the destructuring gives it the default).
\<close>

datatype iter_result = IteratorResult (ir_value: val) (ir_done: "bool option")

record 'w generator =
  gen_next :: "val \<Rightarrow> (iter_result, 'w) eff"
  gen_return :: "(val \<Rightarrow> (iter_result, 'w) eff) option"

text \<open>\<^verbatim>\<open>isResult(value) && !value.data.isOk\<close>\<close>

definition isErrResult :: "val \<Rightarrow> bool" where
  "isErrResult value = (case value of Res r \<Rightarrow> \<not> data_isOk r | _ \<Rightarrow> False)"

text \<open>
  The callback that \<^verbatim>\<open>run\<close> passes to \<^verbatim>\<open>then_\<close> in each turn of its loop assigns to
  the local variable \<^verbatim>\<open>done\<close>, so the world of this callback is the pair of
  \<^verbatim>\<open>done\<close> and the world of the generator. \<open>run_attempt\<close> is what both variants have
  in common (in the variant with error holders it is the body of the \<^verbatim>\<open>try\<close>):

  \<^verbatim>\<open>const { value, done: done_ = false } = gen.next(v);
  if (isResult(value) && !value.data.isOk) { done = true; gen.return?.(value); }
  else { done = done_; }
  return value;\<close>
\<close>

definition run_attempt :: "'w generator \<Rightarrow> (bool \<times> 'w) callback" where
  "run_attempt gen v = (\<lambda>(done, w).
     (case gen_next gen v w of
        (Throws error, w1) \<Rightarrow> (Throws error, (done, w1))
      | (Returns it, w1) \<Rightarrow>
          (let value = ir_value it;
               done' = (case ir_done it of None \<Rightarrow> False | Some d \<Rightarrow> d)
           in if isErrResult value then
                (case gen_return gen of
                   None \<Rightarrow> (Returns value, (True, w1))
                 | Some ret \<Rightarrow>
                     (case ret value w1 of
                        (Throws error, w2) \<Rightarrow> (Throws error, (True, w2))
                      | (Returns _, w2) \<Rightarrow> (Returns value, (True, w2))))
              else (Returns value, (done', w1)))))"

text \<open>Variant with error holders:
  \<^verbatim>\<open>(v) => { try { ... } catch (error) { done = true; return ErrUnchecked(error); } }\<close>\<close>

definition run_callback :: "'w generator \<Rightarrow> (bool \<times> 'w) callback" where
  "run_callback gen v =
     try_catch (run_attempt gen v)
       (\<lambda>error (done, w). (Returns (Res (ErrUnchecked error)), (True, w)))"

text \<open>
  \<^verbatim>\<open>let done = false; let returnResult = Ok(undefined);
  while (!done) { returnResult = returnResult.then_(callback); }
  return returnResult;\<close>

  The loop runs for as long as the generator keeps yielding, so it is a partial
  function: \<open>None\<close> is a run that never returns.
\<close>

partial_function (option) run_loop ::
  "'w generator \<Rightarrow> result \<Rightarrow> bool \<Rightarrow> 'w \<Rightarrow> (result outcome \<times> 'w) option" where
  "run_loop gen returnResult done w =
     (if \<not> done then
        (case then_res returnResult (run_callback gen) None (done, w) of
           (Returns returnResult', (done', w')) \<Rightarrow> run_loop gen returnResult' done' w'
         | (Throws error, (done', w')) \<Rightarrow> Some (Throws error, w'))
      else Some (Returns returnResult, w))"

definition Result_run :: "'w generator \<Rightarrow> 'w \<Rightarrow> (result outcome \<times> 'w) option" where
  "Result_run gen w = run_loop gen (Ok Undefined) False w"

text \<open>Simple variant: the callback is \<open>run_attempt\<close> alone, and \<^verbatim>\<open>then_\<close> has no
  \<^verbatim>\<open>try\<close> either.\<close>

partial_function (option) run_loop_simple ::
  "'w generator \<Rightarrow> result \<Rightarrow> bool \<Rightarrow> 'w \<Rightarrow> (result outcome \<times> 'w) option" where
  "run_loop_simple gen returnResult done w =
     (if \<not> done then
        (case then_res_simple returnResult (run_attempt gen) None (done, w) of
           (Returns returnResult', (done', w')) \<Rightarrow> run_loop_simple gen returnResult' done' w'
         | (Throws error, (done', w')) \<Rightarrow> Some (Throws error, w'))
      else Some (Returns returnResult, w))"

definition Result_run_simple :: "'w generator \<Rightarrow> 'w \<Rightarrow> (result outcome \<times> 'w) option" where
  "Result_run_simple gen w = run_loop_simple gen (Ok Undefined) False w"

section \<open>Generator functions\<close>

text \<open>
  The properties of \<^verbatim>\<open>run\<close> about \<^verbatim>\<open>try\<close>/\<^verbatim>\<open>catch\<close>/\<^verbatim>\<open>finally\<close> speak of the body of
  the generator function that the caller writes. Such a body is modelled by what it
  does next: it completes (normally, by \<^verbatim>\<open>return\<close>, or by \<^verbatim>\<open>throw\<close>), it changes
  the world and goes on, or it yields a value and waits to be resumed. A suspended
  generator is resumed by \<^verbatim>\<open>gen.next(v)\<close>, \<^verbatim>\<open>gen.return(v)\<close> or \<^verbatim>\<open>gen.throw(e)\<close>;
  the language turns the latter two into a \<^verbatim>\<open>return\<close> and a \<^verbatim>\<open>throw\<close> at the point
  of the \<^verbatim>\<open>yield\<close>.
\<close>

datatype completion = CNormal val | CReturn val | CThrow val

datatype resume = ResumeNext val | ResumeReturn val | ResumeThrow val

datatype 'w body =
    Complete completion
  | Act "'w \<Rightarrow> 'w" "'w body"
  | Yield val "resume \<Rightarrow> 'w body"

text \<open>
  \<^verbatim>\<open>yield* r\<close> for a Result \<open>r\<close> runs the iterator that the class defines,
  \<^verbatim>\<open>*[Symbol.iterator]() { const self = this; return yield self; }\<close>: the Result itself
  is yielded once, and the value passed to the following \<^verbatim>\<open>next\<close> is the value of
  the whole \<^verbatim>\<open>yield*\<close> expression.
\<close>

definition resumed :: "resume \<Rightarrow> 'w body" where
  "resumed r =
     (case r of
        ResumeNext v \<Rightarrow> Complete (CNormal v)
      | ResumeReturn v \<Rightarrow> Complete (CReturn v)
      | ResumeThrow e \<Rightarrow> Complete (CThrow e))"

definition yield_star :: "result \<Rightarrow> 'w body" where
  "yield_star self = Yield (Res self) resumed"

text \<open>Sequencing \<^verbatim>\<open>const x = first; rest(x)\<close>: only a normal completion goes on.\<close>

primrec seq :: "'w body \<Rightarrow> (val \<Rightarrow> 'w body) \<Rightarrow> 'w body" where
  "seq (Complete cm) rest = (case cm of CNormal v \<Rightarrow> rest v | _ \<Rightarrow> Complete cm)"
| "seq (Act a b) rest = Act a (seq b rest)"
| "seq (Yield v k) rest = Yield v (\<lambda>r. seq (k r) rest)"

text \<open>\<^verbatim>\<open>try { block } catch (e) { handler(e) }\<close>: the handler runs on a throw only.\<close>

primrec try_catch_block :: "'w body \<Rightarrow> (val \<Rightarrow> 'w body) \<Rightarrow> 'w body" where
  "try_catch_block (Complete cm) handler = (case cm of CThrow e \<Rightarrow> handler e | _ \<Rightarrow> Complete cm)"
| "try_catch_block (Act a b) handler = Act a (try_catch_block b handler)"
| "try_catch_block (Yield v k) handler = Yield v (\<lambda>r. try_catch_block (k r) handler)"

text \<open>\<^verbatim>\<open>try { block } finally { cleanup }\<close>: the cleanup runs on every completion of
  the block; when it completes normally the completion of the block stands.\<close>

primrec try_finally :: "'w body \<Rightarrow> 'w body \<Rightarrow> 'w body" where
  "try_finally (Complete cm) cleanup = seq cleanup (\<lambda>_. Complete cm)"
| "try_finally (Act a b) cleanup = Act a (try_finally b cleanup)"
| "try_finally (Yield v k) cleanup = Yield v (\<lambda>r. try_finally (k r) cleanup)"

text \<open>Running a body up to its completion or its next \<^verbatim>\<open>yield\<close>.\<close>

datatype 'w step = Finished completion | Suspended val "resume \<Rightarrow> 'w body"

primrec drive :: "'w body \<Rightarrow> 'w \<Rightarrow> 'w step \<times> 'w" where
  "drive (Complete cm) w = (Finished cm, w)"
| "drive (Act a b) w = drive b (a w)"
| "drive (Yield v k) w = (Suspended v k, w)"

text \<open>
  The generator object of a body. A generator that has not started runs no code on
  \<^verbatim>\<open>return\<close>; a finished one answers \<^verbatim>\<open>{ value: undefined, done: true }\<close> to
  \<^verbatim>\<open>next\<close>. A body that ends without \<^verbatim>\<open>return\<close> returns \<^verbatim>\<open>undefined\<close>.
\<close>

datatype 'w gen_state =
    SuspendedStart "'w body"
  | SuspendedYield "resume \<Rightarrow> 'w body"
  | Completed

definition state_after :: "'w step \<Rightarrow> 'w gen_state" where
  "state_after stp = (case stp of Suspended v k \<Rightarrow> SuspendedYield k | Finished _ \<Rightarrow> Completed)"

definition iter_outcome :: "'w step \<Rightarrow> iter_result outcome" where
  "iter_outcome stp =
     (case stp of
        Suspended v k \<Rightarrow> Returns (IteratorResult v (Some False))
      | Finished (CNormal _) \<Rightarrow> Returns (IteratorResult Undefined (Some True))
      | Finished (CReturn v) \<Rightarrow> Returns (IteratorResult v (Some True))
      | Finished (CThrow e) \<Rightarrow> Throws e)"

definition resume_with :: "'w body \<Rightarrow> (iter_result, 'w gen_state \<times> 'w) eff" where
  "resume_with b = (\<lambda>(st, w).
     (case drive b w of (stp, w') \<Rightarrow> (iter_outcome stp, (state_after stp, w'))))"

definition body_next :: "val \<Rightarrow> (iter_result, 'w gen_state \<times> 'w) eff" where
  "body_next v = (\<lambda>(st, w).
     (case st of
        SuspendedStart b \<Rightarrow> resume_with b (st, w)
      | SuspendedYield k \<Rightarrow> resume_with (k (ResumeNext v)) (st, w)
      | Completed \<Rightarrow> (Returns (IteratorResult Undefined (Some True)), (Completed, w))))"

definition body_return :: "val \<Rightarrow> (iter_result, 'w gen_state \<times> 'w) eff" where
  "body_return v = (\<lambda>(st, w).
     (case st of
        SuspendedStart b \<Rightarrow> (Returns (IteratorResult v (Some True)), (Completed, w))
      | SuspendedYield k \<Rightarrow> resume_with (k (ResumeReturn v)) (st, w)
      | Completed \<Rightarrow> (Returns (IteratorResult v (Some True)), (Completed, w))))"

definition generator_of_body :: "('w gen_state \<times> 'w) generator" where
  "generator_of_body = \<lparr> gen_next = body_next, gen_return = Some body_return \<rparr>"

text \<open>\<^verbatim>\<open>Result.run(function* () { body })\<close> in the two variants.\<close>

definition run_body :: "'w body \<Rightarrow> 'w \<Rightarrow> (result outcome \<times> 'w) option" where
  "run_body b w =
     map_option (\<lambda>(out, (st, w')). (out, w')) (Result_run generator_of_body (SuspendedStart b, w))"

definition run_body_simple :: "'w body \<Rightarrow> 'w \<Rightarrow> (result outcome \<times> 'w) option" where
  "run_body_simple b w =
     map_option (\<lambda>(out, (st, w')). (out, w'))
       (Result_run_simple generator_of_body (SuspendedStart b, w))"

text \<open>
  What \<^verbatim>\<open>run\<close> makes of a body, read off the body: each Ok that is yielded is
  answered with its value. \<open>to_normal\<close> follows a piece of code in this way to its
  normal completion, \<open>to_first_err\<close> to the first Err that it yields, where it gives
  the Err, the code waiting at that \<^verbatim>\<open>yield\<close>, and the world.
\<close>

primrec to_normal :: "'w body \<Rightarrow> 'w \<Rightarrow> (val \<times> 'w) option" where
  "to_normal (Complete cm) w = (case cm of CNormal v \<Rightarrow> Some (v, w) | _ \<Rightarrow> None)"
| "to_normal (Act a b) w = to_normal b (a w)"
| "to_normal (Yield v k) w =
     (case v of
        Res r \<Rightarrow> if data_isOk r then to_normal (k (ResumeNext (data_value r))) w else None
      | _ \<Rightarrow> None)"

primrec to_first_err :: "'w body \<Rightarrow> 'w \<Rightarrow> (result \<times> (resume \<Rightarrow> 'w body) \<times> 'w) option" where
  "to_first_err (Complete cm) w = None"
| "to_first_err (Act a b) w = to_first_err b (a w)"
| "to_first_err (Yield v k) w =
     (case v of
        Res r \<Rightarrow> if data_isOk r then to_first_err (k (ResumeNext (data_value r))) w
                 else Some (r, k, w)
      | _ \<Rightarrow> None)"

text \<open>The same on a generator object: \<open>n\<close> yields of an Ok, each answered with its
  value, lead from resuming with \<open>v\<close> in world \<open>w\<close> to the next resumption.\<close>

primrec after_ok_yields :: "nat \<Rightarrow> 'w generator \<Rightarrow> val \<Rightarrow> 'w \<Rightarrow> (val \<times> 'w) option" where
  "after_ok_yields 0 gen v w = Some (v, w)"
| "after_ok_yields (Suc n) gen v w =
     (case gen_next gen v w of
        (Returns it, w1) \<Rightarrow>
          (case ir_value it of
             Res r \<Rightarrow>
               if data_isOk r \<and> ir_done it \<noteq> Some True
               then after_ok_yields n gen (data_value r) w1 else None
           | _ \<Rightarrow> None)
      | (Throws error, w1) \<Rightarrow> None)"

section \<open>AsyncResult (simple variant)\<close>

text \<open>
  A promise is modelled by how it settles: fulfilled with a value or rejected with a
  reason. When it settles, and a promise that never does, are outside the model.
  \<^verbatim>\<open>class _AsyncResult { constructor(public readonly resultPromise:
  Promise<Result<T, E>>) }\<close>.
\<close>

datatype 'a settled = Fulfilled 'a | Rejected val

datatype async_result = AsyncResult (resultPromise: "result settled")

text \<open>A callback of \<^verbatim>\<open>Promise.prototype.then\<close> that returns \<open>x\<close> fulfils the new
  promise with \<open>x\<close>, one that throws \<open>e\<close> rejects it with \<open>e\<close> (the values of the model
  are not thenables).\<close>

definition settle :: "'a outcome \<times> 'w \<Rightarrow> 'a settled \<times> 'w" where
  "settle ow = (case ow of (Returns x, w) \<Rightarrow> (Fulfilled x, w) | (Throws e, w) \<Rightarrow> (Rejected e, w))"

text \<open>\<^verbatim>\<open>promise.then(onfulfilled, onrejected?)\<close>: a rejection without a handler is
  passed on, and \<^verbatim>\<open>onrejected\<close> does not see what \<^verbatim>\<open>onfulfilled\<close> throws.\<close>

definition promise_then ::
  "'a settled \<Rightarrow> ('a \<Rightarrow> ('b, 'w) eff) \<Rightarrow> (val \<Rightarrow> ('b, 'w) eff) option \<Rightarrow> 'w \<Rightarrow> 'b settled \<times> 'w" where
  "promise_then p onfulfilled onrejected w =
     (case p of
        Fulfilled x \<Rightarrow> settle (onfulfilled x w)
      | Rejected reason \<Rightarrow>
          (case onrejected of
             None \<Rightarrow> (Rejected reason, w)
           | Some f \<Rightarrow> settle (f reason w)))"

text \<open>
  \<^verbatim>\<open>async valueOrFallback(errCb, rejectionCb?) { return this.resultPromise.then(
  (result) => result.valueOrFallback(errCb), rejectionCb); }\<close>
\<close>

definition async_valueOrFallback ::
  "async_result \<Rightarrow> 'w callback \<Rightarrow> 'w callback option \<Rightarrow> 'w \<Rightarrow> val settled \<times> 'w" where
  "async_valueOrFallback this errCb rejectionCb =
     promise_then (resultPromise this)
       (\<lambda>result. valueOrFallback_simple result errCb) rejectionCb"

text \<open>\<^verbatim>\<open>Promise.allSettled\<close> is always fulfilled, with one status record for each
  promise, in the order of the input.\<close>

datatype 'a settled_result = PromiseFulfilledResult 'a | PromiseRejectedResult val

definition promise_allSettled :: "'a settled list \<Rightarrow> 'a settled_result list settled" where
  "promise_allSettled ps =
     Fulfilled (map (\<lambda>p. case p of Fulfilled x \<Rightarrow> PromiseFulfilledResult x
                              | Rejected reason \<Rightarrow> PromiseRejectedResult reason) ps)"

text \<open>
  \<^verbatim>\<open>async function toResultPromise(it) { const awaited = await it;
  if (isResult(awaited)) return awaited; ... else return Ok(awaited); }\<close> on a promise
  of a value; the branch for a nested AsyncResult does not arise for the values of
  the model. \<^verbatim>\<open>function AsyncResult(arg) { return new _AsyncResult(toResultPromise(arg)) }\<close>.
\<close>

definition toResultPromise :: "val settled \<Rightarrow> result settled" where
  "toResultPromise it =
     (case it of
        Fulfilled awaited \<Rightarrow> Fulfilled (case awaited of Res r \<Rightarrow> r | _ \<Rightarrow> Ok awaited)
      | Rejected reason \<Rightarrow> Rejected reason)"

definition AsyncResult_from :: "val settled \<Rightarrow> async_result" where
  "AsyncResult_from arg = AsyncResult (toResultPromise arg)"

text \<open>
  \<^verbatim>\<open>settledResults.map((it) => it.status === "fulfilled"
    ? { type: it.value.data.isOk ? "ok" : "err", value: it.value.data.value }
    : { type: "rejection", value: it.reason })\<close>
\<close>

definition settled_entry :: "result settled_result \<Rightarrow> val" where
  "settled_entry it =
     (case it of
        PromiseFulfilledResult value \<Rightarrow>
          Obj [(''type'', Str (if data_isOk value then ''ok'' else ''err'')),
               (''value'', data_value value)]
      | PromiseRejectedResult reason \<Rightarrow>
          Obj [(''type'', Str ''rejection''), (''value'', reason)])"

definition AsyncResult_allSettled :: "async_result list \<Rightarrow> async_result" where
  "AsyncResult_allSettled asyncResults =
     AsyncResult_from
       (fst (promise_then (promise_allSettled (map resultPromise asyncResults))
               (\<lambda>settledResults w. (Returns (Arr (map settled_entry settledResults)), w))
               None ()))"

section \<open>Verified properties\<close>

subsection \<open>Result.all and Result.any\<close>

lemma all_loop_all_ok:
  "\<forall>r\<in>set results. data_isOk r \<Longrightarrow>
   all_loop results okValues = Ok (Arr (okValues @ map data_value results))"
  by (induction results arbitrary: okValues) simp_all

lemma all_loop_first_err:
  "\<forall>r\<in>set pre. data_isOk r \<Longrightarrow> \<not> data_isOk e \<Longrightarrow>
   all_loop (pre @ e # post) okValues = e"
  by (induction pre arbitrary: okValues) simp_all

lemma all_loop_some_err:
  "\<exists>r\<in>set results. \<not> data_isOk r \<Longrightarrow> \<not> data_isOk (all_loop results okValues)"
  by (induction results arbitrary: okValues) auto

lemma any_loop_all_err:
  "\<forall>r\<in>set results. \<not> data_isOk r \<Longrightarrow>
   any_loop results errValues = Err (AggregateError (errValues @ map data_value results))"
  by (induction results arbitrary: errValues) simp_all

lemma any_loop_first_ok:
  "\<forall>r\<in>set pre. \<not> data_isOk r \<Longrightarrow> data_isOk s \<Longrightarrow>
   any_loop (pre @ s # post) errValues = s"
  by (induction pre arbitrary: errValues) simp_all

text \<open>
  Claim C5. For every list of Results, \<^verbatim>\<open>Result.all\<close> returns Ok of the array of all
  success values, in input order, if and only if every element is Ok; otherwise it
  returns the first Err of the list: the element \<open>e\<close> of a list \<open>pre @ e # post\<close> in which
  every element of \<open>pre\<close> is Ok and \<open>e\<close> is not.
\<close>

theorem Result_all_spec:
  "(Result_all results = Ok (Arr (map data_value results)) \<longleftrightarrow> (\<forall>r\<in>set results. data_isOk r))
   \<and> ((\<forall>r\<in>set pre. data_isOk r) \<and> \<not> data_isOk e \<longrightarrow> Result_all (pre @ e # post) = e)"
proof -
  have ok: "Result_all results = Ok (Arr (map data_value results))"
    if "\<forall>r\<in>set results. data_isOk r"
    using all_loop_all_ok [OF that, of "[]"] by (simp add: Result_all_def)
  have only: "\<forall>r\<in>set results. data_isOk r"
    if eq: "Result_all results = Ok (Arr (map data_value results))"
  proof (rule ccontr)
    assume "\<not> (\<forall>r\<in>set results. data_isOk r)"
    then have "\<not> data_isOk (all_loop results [])"
      using all_loop_some_err [of results "[]"] by blast
    with eq show False
      by (simp add: Result_all_def Ok_def)
  qed
  have first: "Result_all (pre @ e # post) = e"
    if "\<forall>r\<in>set pre. data_isOk r" "\<not> data_isOk e"
    using all_loop_first_err [OF that, of post "[]"] by (simp add: Result_all_def)
  from ok only first show ?thesis by blast
qed

theorem Result_all_spec_witness:
  "Result_all [Ok (Num 1), Ok (Num 2), Ok (Num 3)] = Ok (Arr [Num 1, Num 2, Num 3])
   \<and> Result_all [Ok (Num 1), Err (Error ''e1''), Err (Error ''e2'')] = Err (Error ''e1'')"
  using Result_all_spec [of "[Ok (Num 1), Ok (Num 2), Ok (Num 3)]" "[Ok (Num 1)]"
      "Err (Error ''e1'')" "[Err (Error ''e2'')]"]
  by (simp add: Ok_def Err_def)

text \<open>
  Claim C6. For every list of Results, \<^verbatim>\<open>Result.any\<close> returns the first Ok of the list
  when there is one; when every element is an Err, it returns one checked Err holding
  an AggregateError whose errors are the error holders of the elements, in list order,
  each holder as it was (checked or unchecked).
\<close>

theorem Result_any_spec:
  "((\<forall>r\<in>set pre. \<not> data_isOk r) \<and> data_isOk s \<longrightarrow> Result_any (pre @ s # post) = s)
   \<and> ((\<forall>r\<in>set results. \<not> data_isOk r) \<longrightarrow>
        Result_any results = Err (AggregateError (map data_value results)))"
proof -
  have first: "Result_any (pre @ s # post) = s"
    if "\<forall>r\<in>set pre. \<not> data_isOk r" "data_isOk s"
    using any_loop_first_ok [OF that, of post "[]"] by (simp add: Result_any_def)
  have none: "Result_any results = Err (AggregateError (map data_value results))"
    if "\<forall>r\<in>set results. \<not> data_isOk r"
    using any_loop_all_err [OF that, of "[]"] by (simp add: Result_any_def)
  from first none show ?thesis by blast
qed

theorem Result_any_spec_witness:
  "Result_any [Err (Error ''e''), Ok (Num 1), Ok (Num 2)] = Ok (Num 1)
   \<and> Result_any [Err (Error ''e1''), Err (Error ''e2''), ErrUnchecked (Error ''e2'')] =
       Err (AggregateError [CheckedErrorHolder (Error ''e1''), CheckedErrorHolder (Error ''e2''),
                            UncheckedErrorHolder (Error ''e2'')])"
  using Result_any_spec [of "[Err (Error ''e'')]" "Ok (Num 1)" "[Ok (Num 2)]"
      "[Err (Error ''e1''), Err (Error ''e2''), ErrUnchecked (Error ''e2'')]"]
  by (simp add: Ok_def Err_def ErrUnchecked_def makeCheckedErrorHolder_def
      makeUncheckedErrorHolder_def)

text \<open>
  Claim C10. On the empty list, \<^verbatim>\<open>Result.all\<close> returns Ok of the empty array, and
  \<^verbatim>\<open>Result.any\<close> returns a checked Err holding an AggregateError with no errors.
\<close>

theorem Result_all_any_empty:
  "Result_all [] = Ok (Arr [])
   \<and> Result_any [] = Err (AggregateError [])
   \<and> Result_any [] = Result False (CheckedErrorHolder (AggregateError []))"
  by (simp add: Result_all_def Result_any_def Err_def makeCheckedErrorHolder_def)

subsection \<open>Short circuit and capture of exceptions\<close>

text \<open>
  Claim C4. For every Err \<open>F\<close> and every callback \<open>cb\<close>, \<^verbatim>\<open>F.then_(cb)\<close> without an error
  callback does not invoke \<open>cb\<close> (the world is unchanged, whatever \<open>cb\<close> is) and returns a
  Result equal to \<open>F\<close>; for every Ok \<open>S\<close>, \<^verbatim>\<open>S.catch_(cb)\<close> does not invoke \<open>cb\<close> and
  returns a Result equal to \<open>S\<close>. This holds in both variants of the class.
\<close>

theorem then_catch_short_circuit:
  "(\<not> data_isOk F \<longrightarrow> then_res F cb None w = (Returns F, w))
   \<and> (data_isOk S \<longrightarrow> catch_res S cb w = (Returns S, w))
   \<and> (\<not> data_isOk F \<longrightarrow> then_res_simple F cb None w = (Returns F, w))
   \<and> (data_isOk S \<longrightarrow> catch_res_simple S cb w = (Returns S, w))"
  by (cases F; cases S)
    (simp add: then_res_def catch_res_def try_catch_def then_res_simple_def
      catch_res_simple_def toResult_simple_def)

theorem then_catch_short_circuit_witness:
  "then_res (Err (Error ''e'')) (\<lambda>v n. (Returns v, Suc n)) None (0::nat) =
     (Returns (Err (Error ''e'')), 0)
   \<and> catch_res (Ok (Num 1)) (\<lambda>v n. (Returns v, Suc n)) (0::nat) = (Returns (Ok (Num 1)), 0)
   \<and> then_res_simple (Err_simple (Error ''e'')) (\<lambda>v n. (Returns v, Suc n)) None (0::nat) =
     (Returns (Err_simple (Error ''e'')), 0)
   \<and> catch_res_simple (Ok (Num 1)) (\<lambda>v n. (Returns v, Suc n)) (0::nat) =
     (Returns (Ok (Num 1)), 0)"
  using then_catch_short_circuit [of "Err (Error ''e'')" "\<lambda>v n. (Returns v, Suc n)" "0::nat"
      "Ok (Num 1)"]
    then_catch_short_circuit [of "Err_simple (Error ''e'')" "\<lambda>v n. (Returns v, Suc n)" "0::nat"
      "Ok (Num 1)"]
  by (simp add: Ok_def Err_def Err_simple_def)

text \<open>
  Claim C2. In the variant with error holders, for every Result \<open>r\<close> and every value
  \<open>v\<close>: when the callback that \<^verbatim>\<open>r.then_\<close>, \<^verbatim>\<open>r.catch_\<close> or \<^verbatim>\<open>r.finally_\<close> invokes
  throws \<open>v\<close>, the method returns an Err whose holder is unchecked and holds exactly \<open>v\<close>
  (with the world as the callback left it). The three methods always return: no
  exception leaves them.
\<close>

theorem callback_throw_captured:
  "(data_isOk r \<and> okCb (data_value r) w = (Throws v, w') \<longrightarrow>
      then_res r okCb errCb w = (Returns (ErrUnchecked v), w'))
   \<and> (\<not> data_isOk r \<and> cb (data_value r) w = (Throws v, w') \<longrightarrow>
      then_res r okCb (Some cb) w = (Returns (ErrUnchecked v), w')
      \<and> catch_res r cb w = (Returns (ErrUnchecked v), w'))
   \<and> (fcb w = (Throws v, w') \<longrightarrow> finally_res r fcb w = (Returns (ErrUnchecked v), w'))
   \<and> (\<exists>r1 w1. then_res r okCb errCb w = (Returns r1, w1))
   \<and> (\<exists>r1 w1. catch_res r cb w = (Returns r1, w1))
   \<and> (\<exists>r1 w1. finally_res r fcb w = (Returns r1, w1))
   \<and> ErrUnchecked v = Result False (UncheckedErrorHolder v)"
proof -
  have never: "\<exists>r1 w1. try_catch body (\<lambda>error w. (Returns (ErrUnchecked error), w)) w = (Returns r1, w1)"
    for body :: "(result, 'a) eff"
    by (cases "body w") (auto simp: try_catch_def split: outcome.splits)
  show ?thesis
    using never
    by (auto simp: then_res_def catch_res_def finally_res_def finally_fn_def try_catch_def
        call_toResult_def ErrUnchecked_def makeUncheckedErrorHolder_def)
qed

theorem callback_throw_captured_witness:
  "then_res (Ok (Num 34)) (\<lambda>v n. (Throws (Error ''boom''), Suc n)) None (0::nat) =
     (Returns (ErrUnchecked (Error ''boom'')), 1)
   \<and> then_res (Err (Error ''e'')) (\<lambda>v n. (Returns v, n)) (Some (\<lambda>v n. (Throws (Error ''boom''), Suc n))) (0::nat) =
     (Returns (ErrUnchecked (Error ''boom'')), 1)
   \<and> catch_res (Err (Error ''e'')) (\<lambda>v n. (Throws (Error ''boom''), Suc n)) (0::nat) =
     (Returns (ErrUnchecked (Error ''boom'')), 1)
   \<and> finally_res (Ok (Num 34)) (\<lambda>n. (Throws (Error ''boom''), Suc n)) (0::nat) =
     (Returns (ErrUnchecked (Error ''boom'')), 1)"
  using callback_throw_captured [of "Ok (Num 34)" "\<lambda>v n. (Throws (Error ''boom''), Suc n)" "0::nat"
      "Error ''boom''" "1::nat" None "\<lambda>v n. (Throws (Error ''boom''), Suc n)" "\<lambda>n. (Throws (Error ''boom''), Suc n)"]
    callback_throw_captured [of "Err (Error ''e'')" "\<lambda>v n. (Returns v, n)" "0::nat"
      "Error ''boom''" "1::nat" None "\<lambda>v n. (Throws (Error ''boom''), Suc n)" "\<lambda>n. (Throws (Error ''boom''), Suc n)"]
  by (simp add: Ok_def Err_def)

subsection \<open>Result.compose\<close>

lemma c_loop_snoc:
  "c_loop (fns @ [fn]) result w =
     (case c_loop fns result w of
        (Returns r, w') \<Rightarrow> then_res r (as_callback fn) None w'
      | (Throws error, w') \<Rightarrow> (Throws error, w'))"
proof (induction fns arbitrary: result w)
  case Nil
  show ?case
    by (cases "then_res result (as_callback fn) None w") (auto split: outcome.splits)
next
  case (Cons f fns)
  show ?case
    by (cases "then_res result (as_callback f) None w") (auto simp: Cons.IH split: outcome.splits)
qed

lemma c_eq_spec_then_chain: "c f1 later x w = spec_then_chain f1 (rev later) x w"
proof (induction later rule: rev_induct)
  case Nil
  show ?case by (cases "f1 x w") (auto simp: c_def split: outcome.splits)
next
  case (snoc fn fns)
  have "c f1 (fns @ [fn]) x w =
        (case c f1 fns x w of
           (Returns r, w') \<Rightarrow> then_res r (as_callback fn) None w'
         | (Throws error, w') \<Rightarrow> (Throws error, w'))"
    by (cases "f1 x w") (auto simp: c_def c_loop_snoc split: outcome.splits)
  with snoc.IH show ?case by simp
qed

text \<open>
  Claim C7. For Result-returning functions \<open>f1, ..., fn\<close>, two to eleven of them, and every
  input \<open>x\<close>, the function that \<^verbatim>\<open>Result.compose\<close> returns gives on \<open>x\<close> what threading
  \<open>x\<close> through \<^verbatim>\<open>f1(x).then_(f2). ... .then_(fn)\<close> gives; for two functions this is
  \<^verbatim>\<open>f1(x).then_(f2)\<close>.
\<close>

theorem compose_refines_then_chain:
  "(2 \<le> length (f1 # later) \<and> length (f1 # later) \<le> 11 \<longrightarrow>
      c f1 later x w = spec_compose f1 later x w)
   \<and> c f1 [f2] x w =
       (case f1 x w of
          (Returns r, w') \<Rightarrow> then_res r (as_callback f2) None w'
        | (Throws error, w') \<Rightarrow> (Throws error, w'))"
  using c_eq_spec_then_chain [of f1 later x w] c_eq_spec_then_chain [of f1 "[f2]" x w]
  by (simp add: spec_compose_def)

theorem compose_refines_then_chain_witness:
  "(2::nat) \<le> length [\<lambda>v w. (Returns (Ok (Num 1)), w :: nat),
                       \<lambda>v w. (Returns (Err (Error ''e'')), w),
                       \<lambda>v w. (Returns (Ok (Num 3)), Suc w)]
   \<and> c (\<lambda>v w. (Returns (Ok (Num 1)), w))
        [\<lambda>v w. (Returns (Err (Error ''e'')), w), \<lambda>v w. (Returns (Ok (Num 3)), Suc w)]
        Undefined (0::nat) =
      spec_compose (\<lambda>v w. (Returns (Ok (Num 1)), w))
        [\<lambda>v w. (Returns (Err (Error ''e'')), w), \<lambda>v w. (Returns (Ok (Num 3)), Suc w)]
        Undefined 0
   \<and> spec_compose (\<lambda>v w. (Returns (Ok (Num 1)), w))
        [\<lambda>v w. (Returns (Err (Error ''e'')), w), \<lambda>v w. (Returns (Ok (Num 3)), Suc w)]
        Undefined (0::nat) =
      (Returns (Err (Error ''e'')), 0)"
  using compose_refines_then_chain [of "\<lambda>v w. (Returns (Ok (Num 1)), w)"
      "[\<lambda>v w. (Returns (Err (Error ''e'')), w), \<lambda>v w. (Returns (Ok (Num 3)), Suc w)]"
      Undefined "0::nat"]
  by (simp add: spec_compose_def then_res_def try_catch_def call_toResult_def as_callback_def
      toResult_def Ok_def Err_def)

subsection \<open>AsyncResult\<close>

text \<open>
  Claim C8. For every AsyncResult settled as an Err, \<^verbatim>\<open>valueOrFallback(onFailure,
  onRejection)\<close> settles as the call of \<open>onFailure\<close> on the error does, whatever
  \<open>onRejection\<close> is (it is not invoked); for every AsyncResult whose promise is rejected,
  it settles as the call of \<open>onRejection\<close> on the reason does, whatever \<open>onFailure\<close> is.
\<close>

theorem valueOrFallback_channels:
  "async_valueOrFallback (AsyncResult (Fulfilled (Err_simple e))) onFailure (Some onRejection) w =
     settle (onFailure e w)
   \<and> async_valueOrFallback (AsyncResult (Rejected reason)) onFailure (Some onRejection) w =
     settle (onRejection reason w)"
  by (simp add: async_valueOrFallback_def promise_then_def valueOrFallback_simple_def Err_simple_def)

lemma settled_entry_of_settled:
  "settled_entry (case p of Fulfilled x \<Rightarrow> PromiseFulfilledResult x
                          | Rejected reason \<Rightarrow> PromiseRejectedResult reason) =
     (case p of
        Fulfilled r \<Rightarrow>
          if data_isOk r then Obj [(''type'', Str ''ok''), (''value'', data_value r)]
          else Obj [(''type'', Str ''err''), (''value'', data_value r)]
      | Rejected reason \<Rightarrow> Obj [(''type'', Str ''rejection''), (''value'', reason)])"
  by (cases p) (simp_all add: settled_entry_def)

text \<open>
  Claim C9. For every list of AsyncResults, each settled as an Ok, as an Err or by a
  rejection, \<^verbatim>\<open>AsyncResult.allSettled\<close> is fulfilled with an Ok (never an Err, never a
  rejection) of an array with one record for each member, in input order, whose
  \<^verbatim>\<open>type\<close> is \<^verbatim>\<open>"ok"\<close>, \<^verbatim>\<open>"err"\<close> or \<^verbatim>\<open>"rejection"\<close> as the member settled.
\<close>

theorem allSettled_never_fails:
  "AsyncResult_allSettled asyncResults =
     AsyncResult (Fulfilled (Ok (Arr (map (\<lambda>member.
        (case resultPromise member of
           Fulfilled r \<Rightarrow>
             if data_isOk r then Obj [(''type'', Str ''ok''), (''value'', data_value r)]
             else Obj [(''type'', Str ''err''), (''value'', data_value r)]
         | Rejected reason \<Rightarrow> Obj [(''type'', Str ''rejection''), (''value'', reason)]))
        asyncResults))))"
  by (simp add: AsyncResult_allSettled_def AsyncResult_from_def toResultPromise_def promise_then_def
      promise_allSettled_def settle_def comp_def settled_entry_of_settled)

subsection \<open>Result.run\<close>

lemma Ok_collapse: "data_isOk r \<Longrightarrow> Ok (data_value r) = r"
  by (cases r) (simp add: Ok_def)

lemma run_attempt_ok:
  assumes "gen_next gen v w = (Returns it, w1)" and "ir_value it = Res r"
    and "data_isOk r" and "ir_done it \<noteq> Some True"
  shows "run_attempt gen v (d, w) = (Returns (Res r), (False, w1))"
  using assms by (cases "ir_done it") (simp_all add: run_attempt_def isErrResult_def)

lemma run_attempt_throw:
  assumes "gen_next gen v w = (Throws e, w1)"
  shows "run_attempt gen v (d, w) = (Throws e, (d, w1))"
  using assms by (simp add: run_attempt_def)

lemma run_turn_ok:
  assumes "gen_next gen v w = (Returns it, w1)" and "ir_value it = Res r"
    and "data_isOk r" and "ir_done it \<noteq> Some True"
  shows "then_res (Ok v) (run_callback gen) None (False, w) = (Returns r, (False, w1))"
    and "then_res_simple (Ok v) (run_attempt gen) None (False, w) = (Returns r, (False, w1))"
  using run_attempt_ok [OF assms, of False]
  by (cases r; simp add: then_res_def then_res_simple_def try_catch_def call_toResult_def
      call_toResult_simple_def run_callback_def toResult_def toResult_simple_def Ok_def)+

lemma run_turn_throw:
  assumes "gen_next gen v w = (Throws e, w1)"
  shows "then_res (Ok v) (run_callback gen) None (False, w) =
           (Returns (ErrUnchecked e), (True, w1))"
    and "then_res_simple (Ok v) (run_attempt gen) None (False, w) = (Throws e, (False, w1))"
  using run_attempt_throw [OF assms, of False]
  by (simp_all add: then_res_def then_res_simple_def try_catch_def call_toResult_def
      call_toResult_simple_def run_callback_def toResult_def Ok_def)

lemma after_ok_yields_Suc:
  assumes "after_ok_yields (Suc n) gen v w = Some (v', w')"
  obtains it w1 r where "gen_next gen v w = (Returns it, w1)" and "ir_value it = Res r"
    and "data_isOk r" and "ir_done it \<noteq> Some True"
    and "after_ok_yields n gen (data_value r) w1 = Some (v', w')"
  using assms
  by (auto split: prod.splits outcome.splits val.splits if_splits)

lemma run_loop_after_ok_yields:
  "after_ok_yields n gen v w = Some (v', w') \<Longrightarrow>
   run_loop gen (Ok v) False w = run_loop gen (Ok v') False w'"
proof (induction n arbitrary: v w)
  case 0
  then show ?case by simp
next
  case (Suc n)
  from Suc.prems obtain it w1 r where
    step: "gen_next gen v w = (Returns it, w1)" "ir_value it = Res r"
      "data_isOk r" "ir_done it \<noteq> Some True"
    and rest: "after_ok_yields n gen (data_value r) w1 = Some (v', w')"
    by (rule after_ok_yields_Suc)
  have "run_loop gen (Ok v) False w = run_loop gen r False w1"
    by (subst run_loop.simps) (simp add: run_turn_ok(1) [OF step])
  also have "\<dots> = run_loop gen (Ok (data_value r)) False w1"
    using step(3) by (simp add: Ok_collapse)
  also have "\<dots> = run_loop gen (Ok v') False w'"
    by (rule Suc.IH [OF rest])
  finally show ?case .
qed

lemma run_loop_simple_after_ok_yields:
  "after_ok_yields n gen v w = Some (v', w') \<Longrightarrow>
   run_loop_simple gen (Ok v) False w = run_loop_simple gen (Ok v') False w'"
proof (induction n arbitrary: v w)
  case 0
  then show ?case by simp
next
  case (Suc n)
  from Suc.prems obtain it w1 r where
    step: "gen_next gen v w = (Returns it, w1)" "ir_value it = Res r"
      "data_isOk r" "ir_done it \<noteq> Some True"
    and rest: "after_ok_yields n gen (data_value r) w1 = Some (v', w')"
    by (rule after_ok_yields_Suc)
  have "run_loop_simple gen (Ok v) False w = run_loop_simple gen r False w1"
    by (subst run_loop_simple.simps) (simp add: run_turn_ok(2) [OF step])
  also have "\<dots> = run_loop_simple gen (Ok (data_value r)) False w1"
    using step(3) by (simp add: Ok_collapse)
  also have "\<dots> = run_loop_simple gen (Ok v') False w'"
    by (rule Suc.IH [OF rest])
  finally show ?case .
qed

lemma run_throw_after_ok_yields:
  assumes "after_ok_yields n gen Undefined w0 = Some (v, w)"
    and "gen_next gen v w = (Throws e, w')"
  shows "Result_run gen w0 = Some (Returns (ErrUnchecked e), w')"
    and "Result_run_simple gen w0 = Some (Throws e, w')"
proof -
  have "Result_run gen w0 = run_loop gen (Ok v) False w"
    unfolding Result_run_def by (rule run_loop_after_ok_yields [OF assms(1)])
  also have "\<dots> = run_loop gen (ErrUnchecked e) True w'"
    by (subst run_loop.simps) (simp add: run_turn_throw(1) [OF assms(2)])
  also have "\<dots> = Some (Returns (ErrUnchecked e), w')"
    by (subst run_loop.simps) simp
  finally show "Result_run gen w0 = Some (Returns (ErrUnchecked e), w')" .
  have "Result_run_simple gen w0 = run_loop_simple gen (Ok v) False w"
    unfolding Result_run_simple_def by (rule run_loop_simple_after_ok_yields [OF assms(1)])
  also have "\<dots> = Some (Throws e, w')"
    by (subst run_loop_simple.simps) (simp add: run_turn_throw(2) [OF assms(2)])
  finally show "Result_run_simple gen w0 = Some (Throws e, w')" .
qed

lemma to_first_err_seq_prefix:
  "to_normal pre w = Some (p, w') \<Longrightarrow> to_first_err (seq pre rest) w = to_first_err (rest p) w'"
proof (induction pre arbitrary: w)
  case (Complete cm)
  then show ?case by (cases cm) simp_all
next
  case (Act a b)
  then show ?case by simp
next
  case (Yield v k)
  then show ?case by (cases v) (auto split: if_splits)
qed

lemma to_first_err_seq:
  "to_first_err b w = Some (r, k, w1) \<Longrightarrow>
   to_first_err (seq b rest) w = Some (r, \<lambda>x. seq (k x) rest, w1)"
proof (induction b arbitrary: w)
  case (Complete cm)
  then show ?case by simp
next
  case (Act a b)
  then show ?case by simp
next
  case (Yield v k0)
  then show ?case by (cases v) (auto split: if_splits)
qed

lemma to_first_err_try_finally:
  "to_first_err b w = Some (r, k, w1) \<Longrightarrow>
   to_first_err (try_finally b cleanup) w = Some (r, \<lambda>x. try_finally (k x) cleanup, w1)"
proof (induction b arbitrary: w)
  case (Complete cm)
  then show ?case by simp
next
  case (Act a b)
  then show ?case by simp
next
  case (Yield v k0)
  then show ?case by (cases v) (auto split: if_splits)
qed

lemma to_first_err_try_catch_block:
  "to_first_err b w = Some (r, k, w1) \<Longrightarrow>
   to_first_err (try_catch_block b handler) w = Some (r, \<lambda>x. try_catch_block (k x) handler, w1)"
proof (induction b arbitrary: w)
  case (Complete cm)
  then show ?case by simp
next
  case (Act a b)
  then show ?case by simp
next
  case (Yield v k0)
  then show ?case by (cases v) (auto split: if_splits)
qed

lemma drive_try_finally:
  "drive b w = (Finished cm, w') \<Longrightarrow>
   drive (try_finally b cleanup) w = drive (seq cleanup (\<lambda>_. Complete cm)) w'"
  by (induction b arbitrary: w) simp_all

lemma run_attempt_err:
  assumes "body_next u s = (Returns (IteratorResult (Res r) (Some False)), (SuspendedYield k, w))"
    and "\<not> data_isOk r"
    and "drive (k (ResumeReturn (Res r))) w = (stp, w2)"
  shows "run_attempt generator_of_body u (d, s) =
           (case iter_outcome stp of
              Returns _ \<Rightarrow> (Returns (Res r), (True, (state_after stp, w2)))
            | Throws e \<Rightarrow> (Throws e, (True, (state_after stp, w2))))"
  using assms
  by (simp add: run_attempt_def generator_of_body_def isErrResult_def body_return_def
      resume_with_def split: outcome.splits)

lemma run_turn_err:
  assumes "body_next u s = (Returns (IteratorResult (Res r) (Some False)), (SuspendedYield k, w))"
    and "\<not> data_isOk r"
    and "drive (k (ResumeReturn (Res r))) w = (stp, w2)"
  shows "then_res (Ok u) (run_callback generator_of_body) None (False, s) =
           (case iter_outcome stp of
              Returns _ \<Rightarrow> (Returns r, (True, (state_after stp, w2)))
            | Throws e \<Rightarrow> (Returns (ErrUnchecked e), (True, (state_after stp, w2))))"
    and "then_res_simple (Ok u) (run_attempt generator_of_body) None (False, s) =
           (case iter_outcome stp of
              Returns _ \<Rightarrow> (Returns r, (True, (state_after stp, w2)))
            | Throws e \<Rightarrow> (Throws e, (True, (state_after stp, w2))))"
  using run_attempt_err [OF assms, of False]
  by (cases r; cases "iter_outcome stp";
      simp add: then_res_def then_res_simple_def try_catch_def call_toResult_def
      call_toResult_simple_def run_callback_def toResult_def toResult_simple_def Ok_def)+

lemma run_loop_to_first_err:
  assumes "to_first_err b w = Some (r, k, w1)"
    and "drive (k (ResumeReturn (Res r))) w1 = (stp, w2)"
    and "body_next u s = resume_with b (st, w)"
  shows "run_loop generator_of_body (Ok u) False s =
           Some (case iter_outcome stp of
                   Returns _ \<Rightarrow> Returns r
                 | Throws e \<Rightarrow> Returns (ErrUnchecked e), (state_after stp, w2))"
  using assms
proof (induction b arbitrary: w u s st)
  case (Complete cm)
  then show ?case by simp
next
  case (Act a b)
  from Act.prems(3) have "body_next u s = resume_with b (st, a w)"
    by (simp add: resume_with_def)
  with Act.IH [of "a w" u s st] Act.prems(1,2) show ?case by simp
next
  case (Yield v k0)
  from Yield.prems(1) obtain r0 where v: "v = Res r0"
    by (cases v) simp_all
  have nxt: "body_next u s = (Returns (IteratorResult (Res r0) (Some False)), (SuspendedYield k0, w))"
    using Yield.prems(3) by (simp add: resume_with_def iter_outcome_def state_after_def v)
  show ?case
  proof (cases "data_isOk r0")
    case True
    with Yield.prems(1) have rest: "to_first_err (k0 (ResumeNext (data_value r0))) w = Some (r, k, w1)"
      by (simp add: v)
    have gn: "gen_next generator_of_body u s =
               (Returns (IteratorResult (Res r0) (Some False)), (SuspendedYield k0, w))"
      using nxt by (simp add: generator_of_body_def)
    have "run_loop generator_of_body (Ok u) False s =
          run_loop generator_of_body r0 False (SuspendedYield k0, w)"
      by (subst run_loop.simps) (simp add: run_turn_ok(1) [OF gn _ True])
    also have "\<dots> = run_loop generator_of_body (Ok (data_value r0)) False (SuspendedYield k0, w)"
      using True by (simp add: Ok_collapse)
    also have "\<dots> = Some (case iter_outcome stp of
                   Returns _ \<Rightarrow> Returns r
                 | Throws e \<Rightarrow> Returns (ErrUnchecked e), (state_after stp, w2))"
    proof (rule Yield.IH [OF _ rest Yield.prems(2)])
      show "k0 (ResumeNext (data_value r0)) \<in> range k0" by (rule rangeI)
      show "body_next (data_value r0) (SuspendedYield k0, w) =
            resume_with (k0 (ResumeNext (data_value r0))) (SuspendedYield k0, w)"
        by (simp add: body_next_def)
    qed
    finally show ?thesis .
  next
    case False
    with Yield.prems(1) have eq: "r0 = r" "k0 = k" "w = w1"
      by (simp_all add: v)
    show ?thesis
      using nxt False Yield.prems(2) unfolding eq
      by (subst run_loop.simps, cases "iter_outcome stp";
          simp add: run_turn_err(1); subst run_loop.simps; simp)
  qed
qed

lemma run_loop_simple_to_first_err:
  assumes "to_first_err b w = Some (r, k, w1)"
    and "drive (k (ResumeReturn (Res r))) w1 = (stp, w2)"
    and "body_next u s = resume_with b (st, w)"
  shows "run_loop_simple generator_of_body (Ok u) False s =
           Some (case iter_outcome stp of
                   Returns _ \<Rightarrow> Returns r
                 | Throws e \<Rightarrow> Throws e, (state_after stp, w2))"
  using assms
proof (induction b arbitrary: w u s st)
  case (Complete cm)
  then show ?case by simp
next
  case (Act a b)
  from Act.prems(3) have "body_next u s = resume_with b (st, a w)"
    by (simp add: resume_with_def)
  with Act.IH [of "a w" u s st] Act.prems(1,2) show ?case by simp
next
  case (Yield v k0)
  from Yield.prems(1) obtain r0 where v: "v = Res r0"
    by (cases v) simp_all
  have nxt: "body_next u s = (Returns (IteratorResult (Res r0) (Some False)), (SuspendedYield k0, w))"
    using Yield.prems(3) by (simp add: resume_with_def iter_outcome_def state_after_def v)
  show ?case
  proof (cases "data_isOk r0")
    case True
    with Yield.prems(1) have rest: "to_first_err (k0 (ResumeNext (data_value r0))) w = Some (r, k, w1)"
      by (simp add: v)
    have gn: "gen_next generator_of_body u s =
               (Returns (IteratorResult (Res r0) (Some False)), (SuspendedYield k0, w))"
      using nxt by (simp add: generator_of_body_def)
    have "run_loop_simple generator_of_body (Ok u) False s =
          run_loop_simple generator_of_body r0 False (SuspendedYield k0, w)"
      by (subst run_loop_simple.simps) (simp add: run_turn_ok(2) [OF gn _ True])
    also have "\<dots> = run_loop_simple generator_of_body (Ok (data_value r0)) False (SuspendedYield k0, w)"
      using True by (simp add: Ok_collapse)
    also have "\<dots> = Some (case iter_outcome stp of
                   Returns _ \<Rightarrow> Returns r
                 | Throws e \<Rightarrow> Throws e, (state_after stp, w2))"
    proof (rule Yield.IH [OF _ rest Yield.prems(2)])
      show "k0 (ResumeNext (data_value r0)) \<in> range k0" by (rule rangeI)
      show "body_next (data_value r0) (SuspendedYield k0, w) =
            resume_with (k0 (ResumeNext (data_value r0))) (SuspendedYield k0, w)"
        by (simp add: body_next_def)
    qed
    finally show ?thesis .
  next
    case False
    with Yield.prems(1) have eq: "r0 = r" "k0 = k" "w = w1"
      by (simp_all add: v)
    show ?thesis
      using nxt False Yield.prems(2) unfolding eq
      by (subst run_loop_simple.simps, cases "iter_outcome stp";
          simp add: run_turn_err(2); subst run_loop_simple.simps; simp)
  qed
qed

lemma run_body_to_first_err:
  assumes "to_first_err b w = Some (r, k, w1)"
    and "drive (k (ResumeReturn (Res r))) w1 = (stp, w2)"
  shows "run_body b w =
           Some (case iter_outcome stp of
                   Returns _ \<Rightarrow> Returns r
                 | Throws e \<Rightarrow> Returns (ErrUnchecked e), w2)"
    and "run_body_simple b w =
           Some (case iter_outcome stp of
                   Returns _ \<Rightarrow> Returns r
                 | Throws e \<Rightarrow> Throws e, w2)"
proof -
  have nxt: "body_next Undefined (SuspendedStart b, w) = resume_with b (SuspendedStart b, w)"
    by (simp add: body_next_def)
  show "run_body b w =
           Some (case iter_outcome stp of
                   Returns _ \<Rightarrow> Returns r
                 | Throws e \<Rightarrow> Returns (ErrUnchecked e), w2)"
    by (simp add: run_body_def Result_run_def run_loop_to_first_err [OF assms nxt])
  show "run_body_simple b w =
           Some (case iter_outcome stp of
                   Returns _ \<Rightarrow> Returns r
                 | Throws e \<Rightarrow> Throws e, w2)"
    by (simp add: run_body_simple_def Result_run_simple_def
        run_loop_simple_to_first_err [OF assms nxt])
qed

lemma to_first_err_yield_star:
  "\<not> data_isOk r \<Longrightarrow> to_first_err (yield_star r) w = Some (r, resumed, w)"
  by (simp add: yield_star_def)

lemma drive_seq:
  "drive (seq b rest) w =
     (case drive b w of
        (Finished (CNormal u), w') \<Rightarrow> drive (rest u) w'
      | (Finished (CReturn x), w') \<Rightarrow> (Finished (CReturn x), w')
      | (Finished (CThrow e), w') \<Rightarrow> (Finished (CThrow e), w')
      | (Suspended v k, w') \<Rightarrow> (Suspended v (\<lambda>y. seq (k y) rest), w'))"
proof (induction b arbitrary: w)
  case (Complete cm)
  show ?case by (cases cm) simp_all
next
  case (Act a b)
  show ?case by (simp add: Act.IH)
next
  case (Yield v k)
  show ?case by simp
qed

lemma drive_try_catch_block:
  "drive (try_catch_block b handler) w =
     (case drive b w of
        (Finished (CNormal u), w') \<Rightarrow> (Finished (CNormal u), w')
      | (Finished (CReturn x), w') \<Rightarrow> (Finished (CReturn x), w')
      | (Finished (CThrow e), w') \<Rightarrow> drive (handler e) w'
      | (Suspended v k, w') \<Rightarrow> (Suspended v (\<lambda>y. try_catch_block (k y) handler), w'))"
proof (induction b arbitrary: w)
  case (Complete cm)
  show ?case by (cases cm) simp_all
next
  case (Act a b)
  show ?case by (simp add: Act.IH)
next
  case (Yield v k)
  show ?case by simp
qed

lemma iter_outcome_Returns_cases:
  assumes "iter_outcome stp = Returns it"
  obtains u where "stp = Finished (CNormal u)"
    | x where "stp = Finished (CReturn x)"
    | v k where "stp = Suspended v k"
proof (cases stp)
  case (Finished cm)
  with assms show ?thesis by (cases cm) (auto simp: iter_outcome_def intro: that)
next
  case (Suspended v k)
  then show ?thesis by (rule that(3))
qed

text \<open>A try/catch whose block does not throw changes nothing that run can see.\<close>

lemma drive_seq_try_catch_block_unseen:
  assumes "drive b w = (stp_in, w_in)" and "iter_outcome stp_in = Returns it_in"
    and "drive (seq b rest) w = (stp, w')"
  obtains stp' where "drive (seq (try_catch_block b handler) rest) w = (stp', w')"
    and "iter_outcome stp' = iter_outcome stp"
  using assms(2)
proof (cases rule: iter_outcome_Returns_cases)
  case (1 u)
  with assms(1) have b: "drive b w = (Finished (CNormal u), w_in)" by simp
  from b assms(3) have "drive (rest u) w_in = (stp, w')"
    by (simp add: drive_seq)
  with b have "drive (seq (try_catch_block b handler) rest) w = (stp, w')"
    by (simp add: drive_seq drive_try_catch_block)
  then show ?thesis by (rule that) simp
next
  case (2 x)
  with assms(1) have b: "drive b w = (Finished (CReturn x), w_in)" by simp
  from b assms(3) have stp: "stp = Finished (CReturn x)" and w': "w' = w_in"
    by (simp_all add: drive_seq)
  from b have "drive (seq (try_catch_block b handler) rest) w = (Finished (CReturn x), w')"
    by (simp add: drive_seq drive_try_catch_block w')
  then show ?thesis by (rule that) (simp add: stp)
next
  case (3 v k)
  with assms(1) have b: "drive b w = (Suspended v k, w_in)" by simp
  with assms(3) have stp: "stp = Suspended v (\<lambda>y. seq (k y) rest)" and w': "w' = w_in"
    by (simp_all add: drive_seq)
  from b have
    "drive (seq (try_catch_block b handler) rest) w =
       (Suspended v (\<lambda>y. seq (try_catch_block (k y) handler) rest), w')"
    by (simp add: drive_seq drive_try_catch_block w')
  then show ?thesis by (rule that) (simp add: iter_outcome_def stp)
qed

text \<open>A cleanup that does not throw lets the return of the block stand or replaces it
  by its own return or yield.\<close>

lemma drive_try_finally_return_stands:
  assumes "drive b w = (Finished (CReturn x), w2)"
    and "drive cleanup w2 = (stp_c, w3)" and "iter_outcome stp_c = Returns it"
  obtains stp' it' where "drive (seq (try_finally b cleanup) rest) w = (stp', w3)"
    and "iter_outcome stp' = Returns it'"
  using assms(3)
proof (cases rule: iter_outcome_Returns_cases)
  case (1 u)
  with assms(2) have "drive (seq (try_finally b cleanup) rest) w = (Finished (CReturn x), w3)"
    by (simp add: drive_seq drive_try_finally [OF assms(1)])
  then show ?thesis by (rule that) (simp add: iter_outcome_def)
next
  case (2 y)
  with assms(2) have "drive (seq (try_finally b cleanup) rest) w = (Finished (CReturn y), w3)"
    by (simp add: drive_seq drive_try_finally [OF assms(1)])
  then show ?thesis by (rule that) (simp add: iter_outcome_def)
next
  case (3 v k)
  with assms(2) have "drive (seq (try_finally b cleanup) rest) w =
      (Suspended v (\<lambda>y. seq (seq (k y) (\<lambda>_. Complete (CReturn x))) rest), w3)"
    by (simp add: drive_seq drive_try_finally [OF assms(1)])
  then show ?thesis by (rule that) (simp add: iter_outcome_def)
qed

lemma drive_seq_try_finally_finished:
  "drive b w = (Finished cm, w2) \<Longrightarrow>
   drive (seq (try_finally b cleanup) rest) w =
     drive (seq (try_finally (Complete cm) cleanup) rest) w2"
  by (simp add: drive_seq [of "try_finally b cleanup"] drive_seq [of "seq cleanup (\<lambda>_. Complete cm)"]
      drive_try_finally)

text \<open>
  Claim C1, as amended. A generator that throws from its own body, when it is resumed
  after one or more yields of an Ok, makes the simple variant of \<^verbatim>\<open>Result.run\<close> raise
  that exception to its caller, and makes the variant with error holders return an Err
  whose holder is unchecked and holds that exception. In both variants, when the body
  is \<^verbatim>\<open>pre; try { block } catch (e) { handler }; rest\<close> and the block, after yields of
  Oks, yields an Err, then the handler is not invoked unless code of the block throws
  while \<^verbatim>\<open>run\<close> closes the generator with \<^verbatim>\<open>gen.return\<close>: what \<^verbatim>\<open>run\<close> gives is
  fixed by the block and the code after the try statement alone. It is that Err when
  closing the generator throws nothing; when the code after the try statement throws
  while the generator is closed, it is that exception (in an unchecked Err, or raised
  by the simple variant).
\<close>

theorem run_exception_vs_failure:
  "(1 \<le> n \<and> after_ok_yields n gen Undefined w0 = Some (v, w)
      \<and> gen_next gen v w = (Throws e, w')
    \<longrightarrow> Result_run_simple gen w0 = Some (Throws e, w')
      \<and> Result_run gen w0 = Some (Returns (ErrUnchecked e), w'))
   \<and> (to_normal pre s0 = Some (p, sa)
      \<and> to_first_err (block p) sa = Some (r, k, s1)
      \<and> drive (k (ResumeReturn (Res r))) s1 = (stp_in, s_in)
      \<and> iter_outcome stp_in = Returns it_in
      \<and> drive (seq (k (ResumeReturn (Res r))) rest) s1 = (stp, s2)
    \<longrightarrow> (iter_outcome stp = Returns it \<longrightarrow>
            run_body (seq pre (\<lambda>p. seq (try_catch_block (block p) (handler p)) rest)) s0 =
              Some (Returns r, s2)
            \<and> run_body_simple (seq pre (\<lambda>p. seq (try_catch_block (block p) (handler p)) rest)) s0 =
              Some (Returns r, s2))
        \<and> (iter_outcome stp = Throws e2 \<longrightarrow>
            run_body (seq pre (\<lambda>p. seq (try_catch_block (block p) (handler p)) rest)) s0 =
              Some (Returns (ErrUnchecked e2), s2)
            \<and> run_body_simple (seq pre (\<lambda>p. seq (try_catch_block (block p) (handler p)) rest)) s0 =
              Some (Throws e2, s2)))"
proof (intro conjI impI; (elim conjE)?)
  assume "after_ok_yields n gen Undefined w0 = Some (v, w)"
    and "gen_next gen v w = (Throws e, w')"
  then show "Result_run_simple gen w0 = Some (Throws e, w')"
    and "Result_run gen w0 = Some (Returns (ErrUnchecked e), w')"
    by (rule run_throw_after_ok_yields)+
next
  assume pre: "to_normal pre s0 = Some (p, sa)"
    and blk: "to_first_err (block p) sa = Some (r, k, s1)"
    and unw: "drive (k (ResumeReturn (Res r))) s1 = (stp_in, s_in)"
      "iter_outcome stp_in = Returns it_in"
    and all: "drive (seq (k (ResumeReturn (Res r))) rest) s1 = (stp, s2)"
  let ?b = "seq pre (\<lambda>p. seq (try_catch_block (block p) (handler p)) rest)"
  have first: "to_first_err ?b s0 =
      Some (r, \<lambda>y. seq (try_catch_block (k y) (handler p)) rest, s1)"
    by (simp add: to_first_err_seq_prefix [OF pre]
        to_first_err_seq [OF to_first_err_try_catch_block [OF blk]])
  obtain stp' where ret:
    "drive (seq (try_catch_block (k (ResumeReturn (Res r))) (handler p)) rest) s1 = (stp', s2)"
    and same: "iter_outcome stp' = iter_outcome stp"
    using unw all by (rule drive_seq_try_catch_block_unseen)
  note run = run_body_to_first_err [OF first ret]
  {
    assume "iter_outcome stp = Returns it"
    with run same show "run_body ?b s0 = Some (Returns r, s2)"
      and "run_body_simple ?b s0 = Some (Returns r, s2)"
      by simp_all
  }
  {
    assume "iter_outcome stp = Throws e2"
    with run same show "run_body ?b s0 = Some (Returns (ErrUnchecked e2), s2)"
      and "run_body_simple ?b s0 = Some (Throws e2, s2)"
      by simp_all
  }
qed

theorem run_exception_vs_failure_witness:
  "Result_run_simple generator_of_body
     (SuspendedStart (seq (yield_star (Ok (Num 42))) (\<lambda>x. Complete (CThrow (Error ''Hi'')))), ()) =
     Some (Throws (Error ''Hi''), (Completed, ()))
   \<and> Result_run generator_of_body
     (SuspendedStart (seq (yield_star (Ok (Num 42))) (\<lambda>x. Complete (CThrow (Error ''Hi'')))), ()) =
     Some (Returns (ErrUnchecked (Error ''Hi'')), (Completed, ()))
   \<and> run_body
     (seq (Complete (CNormal Undefined))
        (\<lambda>p. seq (try_catch_block
                     (seq (yield_star (Ok (Str ''42'')))
                        (\<lambda>x. seq (yield_star (Err (Error ''Failed''))) (\<lambda>y. Complete (CReturn x))))
                     (\<lambda>e. Act (\<lambda>catchRan. True) (Complete (CReturn Undefined))))
                 (\<lambda>_. Complete (CNormal Undefined))))
     False =
     Some (Returns (Err (Error ''Failed'')), False)
   \<and> run_body_simple
     (seq (Complete (CNormal Undefined))
        (\<lambda>p. seq (try_catch_block
                     (seq (yield_star (Ok (Str ''42'')))
                        (\<lambda>x. seq (yield_star (Err (Error ''Failed''))) (\<lambda>y. Complete (CReturn x))))
                     (\<lambda>e. Act (\<lambda>catchRan. True) (Complete (CReturn Undefined))))
                 (\<lambda>_. Complete (CNormal Undefined))))
     False =
     Some (Returns (Err (Error ''Failed'')), False)
   \<and> run_body
     (seq (Complete (CNormal Undefined))
        (\<lambda>p. seq (try_catch_block
                     (Yield (Res (Err (Error ''Failed''))) (\<lambda>y. Complete (CNormal Undefined)))
                     (\<lambda>e. Act (\<lambda>catchRan. True) (Complete (CReturn Undefined))))
                 (\<lambda>_. Complete (CThrow (Error ''later'')))))
     False =
     Some (Returns (ErrUnchecked (Error ''later'')), False)
   \<and> run_body_simple
     (seq (Complete (CNormal Undefined))
        (\<lambda>p. seq (try_catch_block
                     (Yield (Res (Err (Error ''Failed''))) (\<lambda>y. Complete (CNormal Undefined)))
                     (\<lambda>e. Act (\<lambda>catchRan. True) (Complete (CReturn Undefined))))
                 (\<lambda>_. Complete (CThrow (Error ''later'')))))
     False =
     Some (Throws (Error ''later''), False)"
  using
    run_exception_vs_failure [where n = 1 and gen = generator_of_body
      and ?w0.0 = "(SuspendedStart (seq (yield_star (Ok (Num 42)))
                      (\<lambda>x. Complete (CThrow (Error ''Hi'')))), ())"
      and v = "Num 42"
      and w = "(SuspendedYield (\<lambda>y. seq (resumed y) (\<lambda>x. Complete (CThrow (Error ''Hi'')))), ())"
      and e = "Error ''Hi''" and w' = "(Completed, ())"
      and pre = "Complete (CNormal Undefined)" and ?s0.0 = False and p = Undefined and sa = False
      and block = "\<lambda>_. seq (yield_star (Ok (Str ''42'')))
                        (\<lambda>x. seq (yield_star (Err (Error ''Failed''))) (\<lambda>y. Complete (CReturn x)))"
      and r = "Err (Error ''Failed'')"
      and k = "\<lambda>z. seq (resumed z) (\<lambda>y. Complete (CReturn (Str ''42'')))"
      and ?s1.0 = False
      and stp_in = "Finished (CReturn (Res (Err (Error ''Failed''))))" and s_in = False
      and it_in = "IteratorResult (Res (Err (Error ''Failed''))) (Some True)"
      and stp = "Finished (CReturn (Res (Err (Error ''Failed''))))" and ?s2.0 = False
      and it = "IteratorResult (Res (Err (Error ''Failed''))) (Some True)"
      and ?e2.0 = Undefined
      and handler = "\<lambda>_ e. Act (\<lambda>catchRan. True) (Complete (CReturn Undefined))"
      and rest = "\<lambda>_. Complete (CNormal Undefined)"]
    run_exception_vs_failure [where n = 1 and gen = generator_of_body
      and ?w0.0 = "(SuspendedStart (seq (yield_star (Ok (Num 42)))
                      (\<lambda>x. Complete (CThrow (Error ''Hi'')))), ())"
      and v = "Num 42"
      and w = "(SuspendedYield (\<lambda>y. seq (resumed y) (\<lambda>x. Complete (CThrow (Error ''Hi'')))), ())"
      and e = "Error ''Hi''" and w' = "(Completed, ())"
      and pre = "Complete (CNormal Undefined)" and ?s0.0 = False and p = Undefined and sa = False
      and block = "\<lambda>_. Yield (Res (Err (Error ''Failed''))) (\<lambda>y. Complete (CNormal Undefined))"
      and r = "Err (Error ''Failed'')"
      and k = "\<lambda>y. Complete (CNormal Undefined)"
      and ?s1.0 = False
      and stp_in = "Finished (CNormal Undefined)" and s_in = False
      and it_in = "IteratorResult Undefined (Some True)"
      and stp = "Finished (CThrow (Error ''later''))" and ?s2.0 = False
      and it = "IteratorResult Undefined None"
      and ?e2.0 = "Error ''later''"
      and handler = "\<lambda>_ e. Act (\<lambda>catchRan. True) (Complete (CReturn Undefined))"
      and rest = "\<lambda>_. Complete (CThrow (Error ''later''))"]
  by (simp add: generator_of_body_def body_next_def resume_with_def yield_star_def
      resumed_def iter_outcome_def state_after_def Ok_def Err_def)

lemma throw_after_one_yield:
  fixes w :: 'w
  defines "b \<equiv> seq (yield_star (Ok (Num 42))) (\<lambda>x. Complete (CThrow (Error ''Hi'')))"
  shows "after_ok_yields (Suc 0) generator_of_body Undefined (SuspendedStart b, w) =
           Some (Num 42, (SuspendedYield (\<lambda>y. seq (resumed y) (\<lambda>x. Complete (CThrow (Error ''Hi'')))), w))"
    and "gen_next generator_of_body (Num 42)
           (SuspendedYield (\<lambda>y. seq (resumed y) (\<lambda>x. Complete (CThrow (Error ''Hi'')))), w) =
         (Throws (Error ''Hi''), (Completed, w))"
  by (simp_all add: b_def generator_of_body_def body_next_def resume_with_def yield_star_def
      resumed_def iter_outcome_def state_after_def Ok_def)

text \<open>
  The claim as first stated fails in two places. For
  \<^verbatim>\<open>function* () { const x = yield* Ok(42); throw new Error("Hi"); }\<close> the variant with
  error holders returns \<^verbatim>\<open>ErrUnchecked(new Error("Hi"))\<close> and raises nothing. For
  \<^verbatim>\<open>function* () { try { try { yield* Err(new Error("Failed")); } finally { throw new
  Error("inner"); } } catch (e) { catchRan = true; return undefined; } }\<close> the catch
  block around the yielded Err is invoked: \<^verbatim>\<open>gen.return\<close> runs the inner \<^verbatim>\<open>finally\<close>,
  which throws into it.
\<close>

theorem run_exception_vs_failure_counterexample:
  "run_body (seq (yield_star (Ok (Num 42))) (\<lambda>x. Complete (CThrow (Error ''Hi'')))) () =
     Some (Returns (ErrUnchecked (Error ''Hi'')), ())
   \<and> run_body
       (try_catch_block
          (try_finally (yield_star (Err (Error ''Failed''))) (Complete (CThrow (Error ''inner''))))
          (\<lambda>e. Act (\<lambda>catchRan. True) (Complete (CReturn Undefined))))
       False =
     Some (Returns (Err (Error ''Failed'')), True)"
proof -
  have a: "run_body (seq (yield_star (Ok (Num 42))) (\<lambda>x. Complete (CThrow (Error ''Hi'')))) () =
      Some (Returns (ErrUnchecked (Error ''Hi'')), ())"
    using run_throw_after_ok_yields(1) [OF throw_after_one_yield, of "()"]
    by (simp add: run_body_def)
  let ?h = "\<lambda>e. Act (\<lambda>catchRan. True) (Complete (CReturn Undefined))"
  let ?c = "Complete (CThrow (Error ''inner'')) :: bool body"
  have err: "\<not> data_isOk (Err (Error ''Failed''))"
    by (simp add: Err_def)
  have first: "to_first_err (try_catch_block (try_finally (yield_star (Err (Error ''Failed''))) ?c) ?h)
        False =
      Some (Err (Error ''Failed''), \<lambda>y. try_catch_block (try_finally (resumed y) ?c) ?h, False)"
    by (rule to_first_err_try_catch_block
        [OF to_first_err_try_finally [OF to_first_err_yield_star [OF err]]])
  have unw: "drive (try_catch_block
        (try_finally (resumed (ResumeReturn (Res (Err (Error ''Failed''))))) ?c) ?h) False =
      (Finished (CReturn Undefined), True)"
    by (simp add: resumed_def)
  have b: "run_body (try_catch_block (try_finally (yield_star (Err (Error ''Failed''))) ?c) ?h)
      False = Some (Returns (Err (Error ''Failed'')), True)"
    using run_body_to_first_err(1) [OF first unw] by (simp add: iter_outcome_def)
  from a b show ?thesis by (rule conjI)
qed

text \<open>
  Claim C3, as amended. When the body of the generator is
  \<^verbatim>\<open>pre; try { block } finally { cleanup }; rest\<close> and the block yields an Err (after
  yields of Oks), \<^verbatim>\<open>run\<close> closes the generator with \<^verbatim>\<open>gen.return\<close>. If the injected
  \<^verbatim>\<open>return\<close> leaves the block and the cleanup does not throw (it completes normally,
  ends in a \<^verbatim>\<open>return\<close> of its own, or stops at a \<^verbatim>\<open>yield\<close> of its own), then
  \<^verbatim>\<open>Result.run\<close> returns that Err and the cleanup has run before it returns: the world
  is the one that the cleanup leaves. More generally, whenever closing the generator
  leaves the block, with any completion, and the cleanup with what follows it throws
  nothing, \<^verbatim>\<open>run\<close> returns that Err in the world that they leave. Both variants.
\<close>

theorem run_err_in_try_finally:
  "(to_normal pre w0 = Some (p, wa)
    \<and> to_first_err (block p) wa = Some (r, k, w1)
    \<and> drive (k (ResumeReturn (Res r))) w1 = (Finished (CReturn x), w2)
    \<and> drive (cleanup p) w2 = (stp_c, w3)
    \<and> iter_outcome stp_c = Returns it_c
    \<longrightarrow> run_body (seq pre (\<lambda>p. seq (try_finally (block p) (cleanup p)) rest)) w0 =
          Some (Returns r, w3)
      \<and> run_body_simple (seq pre (\<lambda>p. seq (try_finally (block p) (cleanup p)) rest)) w0 =
          Some (Returns r, w3))
   \<and> (to_normal pre w0 = Some (p, wa)
    \<and> to_first_err (block p) wa = Some (r, k, w1)
    \<and> drive (k (ResumeReturn (Res r))) w1 = (Finished cm, w2)
    \<and> drive (seq (try_finally (Complete cm) (cleanup p)) rest) w2 = (stp, w4)
    \<and> iter_outcome stp = Returns it
    \<longrightarrow> run_body (seq pre (\<lambda>p. seq (try_finally (block p) (cleanup p)) rest)) w0 =
          Some (Returns r, w4)
      \<and> run_body_simple (seq pre (\<lambda>p. seq (try_finally (block p) (cleanup p)) rest)) w0 =
          Some (Returns r, w4))"
proof -
  let ?b = "seq pre (\<lambda>p. seq (try_finally (block p) (cleanup p)) rest)"
  have first: "to_first_err ?b w0 =
      Some (r, \<lambda>y. seq (try_finally (k y) (cleanup p)) rest, w1)"
    if "to_normal pre w0 = Some (p, wa)" "to_first_err (block p) wa = Some (r, k, w1)"
    by (simp add: to_first_err_seq_prefix [OF that(1)]
        to_first_err_seq [OF to_first_err_try_finally [OF that(2)]])
  have plain: "run_body ?b w0 = Some (Returns r, w3) \<and> run_body_simple ?b w0 = Some (Returns r, w3)"
    if pre: "to_normal pre w0 = Some (p, wa)"
      and blk: "to_first_err (block p) wa = Some (r, k, w1)"
      and unw: "drive (k (ResumeReturn (Res r))) w1 = (Finished (CReturn x), w2)"
      and cln: "drive (cleanup p) w2 = (stp_c, w3)" "iter_outcome stp_c = Returns it_c"
  proof -
    obtain stp' it' where
      ret: "drive (seq (try_finally (k (ResumeReturn (Res r))) (cleanup p)) rest) w1 = (stp', w3)"
      and out: "iter_outcome stp' = Returns it'"
      using unw cln by (rule drive_try_finally_return_stands)
    show ?thesis
      using run_body_to_first_err [OF first [OF pre blk] ret] out by simp
  qed
  have general: "run_body ?b w0 = Some (Returns r, w4) \<and> run_body_simple ?b w0 = Some (Returns r, w4)"
    if pre: "to_normal pre w0 = Some (p, wa)"
      and blk: "to_first_err (block p) wa = Some (r, k, w1)"
      and unw: "drive (k (ResumeReturn (Res r))) w1 = (Finished cm, w2)"
      and cln: "drive (seq (try_finally (Complete cm) (cleanup p)) rest) w2 = (stp, w4)"
      and out: "iter_outcome stp = Returns it"
  proof -
    have ret: "drive (seq (try_finally (k (ResumeReturn (Res r))) (cleanup p)) rest) w1 = (stp, w4)"
      using cln by (simp only: drive_seq_try_finally_finished [OF unw])
    show ?thesis
      using run_body_to_first_err [OF first [OF pre blk] ret] out by simp
  qed
  from plain general show ?thesis by blast
qed

theorem run_err_in_try_finally_witness:
  "run_body
     (seq (yield_star (Ok (Num 42)))
        (\<lambda>p. seq (try_finally (yield_star (Err (Error ''Hi'')))
                     (Act (\<lambda>finallyRan. True) (Complete (CNormal Undefined))))
                 (\<lambda>_. Complete (CReturn (Num 85)))))
     False =
   Some (Returns (Err (Error ''Hi'')), True)
   \<and> run_body_simple
     (seq (yield_star (Ok (Num 42)))
        (\<lambda>p. seq (try_finally (yield_star (Err_simple (Error ''Hi'')))
                     (Act (\<lambda>finallyRan. True) (Complete (CReturn (Num 7)))))
                 (\<lambda>_. Complete (CReturn (Num 85)))))
     False =
   Some (Returns (Err_simple (Error ''Hi'')), True)"
  using
    run_err_in_try_finally [where pre = "yield_star (Ok (Num 42))" and ?w0.0 = False
      and p = "Num 42" and wa = False and block = "\<lambda>_. yield_star (Err (Error ''Hi''))"
      and r = "Err (Error ''Hi'')" and k = resumed and ?w1.0 = False
      and x = "Res (Err (Error ''Hi''))" and ?w2.0 = False
      and cleanup = "\<lambda>_. Act (\<lambda>finallyRan. True) (Complete (CNormal Undefined))"
      and stp_c = "Finished (CNormal Undefined)" and ?w3.0 = True
      and it_c = "IteratorResult Undefined (Some True)"
      and cm = "CReturn (Res (Err (Error ''Hi'')))"
      and stp = "Finished (CReturn (Res (Err (Error ''Hi''))))" and ?w4.0 = True
      and it = "IteratorResult (Res (Err (Error ''Hi''))) (Some True)"
      and rest = "\<lambda>_. Complete (CReturn (Num 85))"]
    run_err_in_try_finally [where pre = "yield_star (Ok (Num 42))" and ?w0.0 = False
      and p = "Num 42" and wa = False and block = "\<lambda>_. yield_star (Err_simple (Error ''Hi''))"
      and r = "Err_simple (Error ''Hi'')" and k = resumed and ?w1.0 = False
      and x = "Res (Err_simple (Error ''Hi''))" and ?w2.0 = False
      and cleanup = "\<lambda>_. Act (\<lambda>finallyRan. True) (Complete (CReturn (Num 7)))"
      and stp_c = "Finished (CReturn (Num 7))" and ?w3.0 = True
      and it_c = "IteratorResult (Num 7) (Some True)"
      and cm = "CReturn (Res (Err_simple (Error ''Hi'')))"
      and stp = "Finished (CReturn (Num 7))" and ?w4.0 = True
      and it = "IteratorResult (Num 7) (Some True)"
      and rest = "\<lambda>_. Complete (CReturn (Num 85))"]
  by (simp add: yield_star_def resumed_def iter_outcome_def Ok_def Err_def Err_simple_def)

text \<open>
  Without these conditions the claim fails. For
  \<^verbatim>\<open>function* () { try { yield* Err(new Error("Hi")); } finally { throw new
  Error("cleanup failed"); } }\<close> the variant with error holders returns
  \<^verbatim>\<open>ErrUnchecked(new Error("cleanup failed"))\<close>, not the Err that was yielded, and the
  simple variant raises the exception of the cleanup. For
  \<^verbatim>\<open>function* () { try { try { yield* Err(new Error("Hi")); } finally { yield* Ok(1); } }
  finally { finallyRan = true; } }\<close> closing the generator stops at the \<^verbatim>\<open>yield\<close> of
  the inner \<^verbatim>\<open>finally\<close>, and the outer \<^verbatim>\<open>finally\<close> block is not executed.
\<close>

theorem run_err_in_try_finally_counterexample:
  "run_body
     (try_finally (yield_star (Err (Error ''Hi''))) (Complete (CThrow (Error ''cleanup failed''))))
     () =
   Some (Returns (ErrUnchecked (Error ''cleanup failed'')), ())
   \<and> ErrUnchecked (Error ''cleanup failed'') \<noteq> Err (Error ''Hi'')
   \<and> run_body_simple
     (try_finally (yield_star (Err_simple (Error ''Hi'')))
        (Complete (CThrow (Error ''cleanup failed''))))
     () =
   Some (Throws (Error ''cleanup failed''), ())
   \<and> run_body
     (try_finally
        (try_finally (yield_star (Err (Error ''Hi'')))
           (seq (yield_star (Ok (Num 1))) (\<lambda>_. Complete (CNormal Undefined))))
        (Act (\<lambda>finallyRan. True) (Complete (CNormal Undefined))))
     False =
   Some (Returns (Err (Error ''Hi'')), False)"
proof -
  have first: "to_first_err (try_finally (yield_star r) cl) () =
      Some (r, \<lambda>y. try_finally (resumed y) cl, ())" if "\<not> data_isOk r"
    for r and cl :: "unit body"
    by (rule to_first_err_try_finally [OF to_first_err_yield_star [OF that]])
  have unw: "drive (try_finally (resumed (ResumeReturn (Res r)))
        (Complete (CThrow (Error ''cleanup failed'')))) () =
      (Finished (CThrow (Error ''cleanup failed'')), ())" for r
    by (simp add: resumed_def)
  have err: "\<not> data_isOk (Err (Error ''Hi''))" "\<not> data_isOk (Err_simple (Error ''Hi''))"
    by (simp_all add: Err_def Err_simple_def)
  let ?inner = "seq (yield_star (Ok (Num 1))) (\<lambda>_. Complete (CNormal Undefined)) :: bool body"
  let ?outer = "Act (\<lambda>finallyRan. True) (Complete (CNormal Undefined))"
  have first2: "to_first_err
        (try_finally (try_finally (yield_star (Err (Error ''Hi''))) ?inner) ?outer) False =
      Some (Err (Error ''Hi''),
            \<lambda>y. try_finally (try_finally (resumed y) ?inner) ?outer, False)"
    by (rule to_first_err_try_finally
        [OF to_first_err_try_finally [OF to_first_err_yield_star [OF err(1)]]])
  obtain k2 where unw2: "drive (try_finally
        (try_finally (resumed (ResumeReturn (Res (Err (Error ''Hi''))))) ?inner) ?outer) False =
      (Suspended (Res (Ok (Num 1))) k2, False)"
    by (simp add: resumed_def yield_star_def)
  have nested: "run_body
      (try_finally (try_finally (yield_star (Err (Error ''Hi''))) ?inner) ?outer) False =
      Some (Returns (Err (Error ''Hi'')), False)"
    using run_body_to_first_err(1) [OF first2 unw2] by (simp add: iter_outcome_def)
  from err nested show ?thesis
    using run_body_to_first_err(1) [OF first unw, of "Err (Error ''Hi'')"]
      run_body_to_first_err(2) [OF first unw, of "Err_simple (Error ''Hi'')"]
    by (simp add: iter_outcome_def ErrUnchecked_def Err_def makeUncheckedErrorHolder_def
        makeCheckedErrorHolder_def)
qed

end
